theory Spec2Isabelle
  imports Main "HOL-Library.Word" "HOL-Library.Signed_Division"
begin

section \<open>The C++ types and library functions used by \<open>divide.cpp\<close>\<close>

text \<open>
  The program is \<open>src/divide.cpp\<close>: a helper \<open>divide\<close> and \<open>main\<close>. Its \<open>int\<close> is the
  32-bit two's complement integer of the mainstream ABIs, modelled as \<open>32 word\<close> and read
  through \<open>sint\<close>. \<open>argc\<close> is the number of entries of \<open>argv\<close>; it is far below the
  range of \<open>int\<close> (the operating system bounds the argument vector), so it is an \<open>int\<close>
  of HOL here.
\<close>

type_synonym cint = "32 word"

definition INT_MIN :: int where
  "INT_MIN = - (2 ^ 31)"

definition INT_MAX :: int where
  "INT_MAX = 2 ^ 31 - 1"

subsection \<open>Undefined behaviour and exceptions\<close>

text \<open>
  ISO C++ [expr.mul]: for \<open>a / b\<close> on integers the result is the algebraic quotient with
  any fractional part discarded; if \<open>b\<close> is zero, or if the quotient is not representable
  in the type of the result, the behaviour is undefined. The source has no check before
  the division, so both cases are outcomes of the model.
\<close>

datatype undefined_behaviour = Division_By_Zero | Quotient_Not_Representable

text \<open>The two exceptions \<open>std::stoi\<close> throws: \<open>std::invalid_argument\<close>, \<open>std::out_of_range\<close>.\<close>

datatype exception = Invalid_Argument | Out_Of_Range

subsection \<open>\<open>std::stoi\<close>\<close>

text \<open>
  \<open>std::stoi(str)\<close> (with \<open>idx = nullptr\<close>, \<open>base = 10\<close>) calls \<open>strtol\<close> on the text:
  leading white space (\<open>isspace\<close> of the "C" locale; the program never calls
  \<open>setlocale\<close>) is skipped, one optional sign \<open>+\<close> or \<open>-\<close> is read, then the longest run
  of decimal digits; whatever follows the digits is ignored. It throws
  \<open>invalid_argument\<close> when there is no digit to convert and \<open>out_of_range\<close> when the
  value does not fit \<open>int\<close> (\<open>strtol\<close> saturating with \<open>ERANGE\<close> at the range of
  \<open>long\<close> is outside the range of \<open>int\<close> as well).
\<close>

definition isspace :: "char \<Rightarrow> bool" where
  "isspace c = (c \<in> set [CHR '' '', CHR 0x09, CHR 0x0A, CHR 0x0B, CHR 0x0C, CHR 0x0D])"

definition isdigit :: "char \<Rightarrow> bool" where
  "isdigit c = (c \<in> set ''0123456789'')"

definition digit_val :: "char \<Rightarrow> int" where
  "digit_val c = of_char c - 48"

definition digits_value :: "string \<Rightarrow> int" where
  "digits_value ds = foldl (\<lambda>acc c. 10 * acc + digit_val c) 0 ds"

definition strip_sign :: "string \<Rightarrow> bool \<times> string" where
  "strip_sign s =
     (case s of
        [] \<Rightarrow> (False, [])
      | c # r \<Rightarrow>
          if c = CHR ''-'' then (True, r)
          else if c = CHR ''+'' then (False, r)
          else (False, s))"

definition stoi :: "string \<Rightarrow> exception + cint" where
  "stoi str =
     (let (neg, rest) = strip_sign (dropWhile isspace str);
          ds = takeWhile isdigit rest
      in if ds = [] then Inl Invalid_Argument
         else let v = (if neg then - digits_value ds else digits_value ds)
              in if v < INT_MIN \<or> INT_MAX < v then Inl Out_Of_Range
                 else Inr (word_of_int v))"

subsection \<open>\<open>printf\<close>\<close>

text \<open>
  The conversion \<open>%d\<close> writes an \<open>int\<close> in decimal: a minus sign for a negative value,
  then the digits of the magnitude without leading zeros.
\<close>

definition digit_char :: "int \<Rightarrow> char" where
  "digit_char d = char_of (48 + d)"

function dec_digits :: "int \<Rightarrow> string" where
  "dec_digits n =
     (if n < 10 then [digit_char n] else dec_digits (n div 10) @ [digit_char (n mod 10)])"
  by pat_completeness auto
termination
  by (relation "measure nat") auto

declare dec_digits.simps [simp del]

definition printf_d :: "cint \<Rightarrow> string" where
  "printf_d w =
     (if sint w < 0 then CHR ''-'' # dec_digits (- sint w) else dec_digits (sint w))"

text \<open>
  \<open>printf format args\<close>: the text written for a format string whose only conversions
  are \<open>%d\<close>, each taking the next argument; every other character is copied. (A \<open>%d\<close>
  without an argument is undefined in C; the program has none, and the model writes
  nothing for it.)
\<close>

fun printf :: "string \<Rightarrow> cint list \<Rightarrow> string" where
  "printf [] args = []"
| "printf [c] args = [c]"
| "printf (c # d # fmt) args =
     (if c = CHR ''%'' \<and> d = CHR ''d''
      then (case args of [] \<Rightarrow> printf fmt [] | a # rest \<Rightarrow> printf_d a @ printf fmt rest)
      else c # printf (d # fmt) args)"

section \<open>The program\<close>

subsection \<open>\<open>divide\<close>\<close>

text \<open>
  \<open>int divide(int x, int y) { return x / y; }\<close> The quotient is computed on the values
  (\<open>sdiv\<close> on \<open>int\<close> discards the fractional part); the two undefined cases of the
  operator \<open>/\<close> are the \<open>Inl\<close> results.
\<close>

definition divide :: "cint \<Rightarrow> cint \<Rightarrow> undefined_behaviour + cint" where
  "divide x y =
     (if y = 0 then Inl Division_By_Zero
      else let q = sint x sdiv sint y
           in if q < INT_MIN \<or> INT_MAX < q then Inl Quotient_Not_Representable
              else Inr (word_of_int q))"

subsection \<open>\<open>main\<close>\<close>

text \<open>
  What an execution does is recorded as the calls it makes, in order: each call of
  \<open>std::stoi\<close> with its text, the call of \<open>divide\<close> with its operands, and each
  \<open>printf\<close> with the text it writes to standard output.
\<close>

datatype event = Stoi string | Divide cint cint | Printf string

text \<open>
  An execution of \<open>main\<close> ends in one of three ways: \<open>main\<close> returns a value (falling off
  its end returns 0); an exception leaves \<open>main\<close> uncaught, which calls
  \<open>std::terminate\<close> and aborts the process; or the execution has undefined behaviour,
  for which the language gives no events at all.
\<close>

datatype outcome =
    Returned "event list" cint
  | Terminated "event list" exception
  | Undefined undefined_behaviour

definition main :: "int \<Rightarrow> string list \<Rightarrow> outcome" where
  "main argc argv =
     (if argc \<noteq> 3 then
        Returned [Printf (printf ''Two integer arguments required\<newline>'' [])] (- 1)
      else
        case stoi (argv ! 1) of
          Inl e \<Rightarrow> Terminated [Stoi (argv ! 1)] e
        | Inr x \<Rightarrow>
            (case stoi (argv ! 2) of
               Inl e \<Rightarrow> Terminated [Stoi (argv ! 1), Stoi (argv ! 2)] e
             | Inr y \<Rightarrow>
                 (case divide x y of
                    Inl u \<Rightarrow> Undefined u
                  | Inr z \<Rightarrow>
                      Returned
                        [Stoi (argv ! 1), Stoi (argv ! 2), Divide x y,
                         Printf (printf ''%d / %d = %d\<newline>'' [x, y, z])]
                        0)))"

text \<open>
  The start of the program in a hosted environment: \<open>argv[0]\<close> is the program name,
  the arguments follow, and \<open>argc\<close> counts both.
\<close>

definition run :: "string \<Rightarrow> string list \<Rightarrow> outcome" where
  "run prog args = main (int (length args) + 1) (prog # args)"

subsection \<open>What is observed of an execution\<close>

fun written :: "event \<Rightarrow> string" where
  "written (Printf s) = s"
| "written (Stoi s) = []"
| "written (Divide x y) = []"

definition stdout_of :: "event list \<Rightarrow> string" where
  "stdout_of evs = concat (map written evs)"

text \<open>
  What the environment sees of a finished execution: the bytes on standard output and
  how the process ended. A return of \<open>main\<close> exits with the returned value; an
  uncaught exception ends in \<open>abort\<close>. (Nothing is written before either call of
  \<open>std::stoi\<close>, so no buffered output is pending at an abort.) Undefined behaviour
  determines no observation.
\<close>

datatype process_end = Exit cint | Abort

type_synonym observation = "string \<times> process_end"

fun observable :: "outcome \<Rightarrow> observation option" where
  "observable (Returned evs r) = Some (stdout_of evs, Exit r)"
| "observable (Terminated evs e) = Some (stdout_of evs, Abort)"
| "observable (Undefined u) = None"

fun exit_code :: "outcome \<Rightarrow> cint option" where
  "exit_code (Returned evs r) = Some r"
| "exit_code (Terminated evs e) = None"
| "exit_code (Undefined u) = None"

text \<open>
  The status a waiting parent process sees is the low eight bits of the value passed to
  \<open>exit\<close> (POSIX \<open>WEXITSTATUS\<close>); this is the convention of the operating system, not
  code of the program.
\<close>

definition process_status :: "cint \<Rightarrow> 8 word" where
  "process_status r = ucast r"

section \<open>The words of the specification\<close>

text \<open>
  Truncating division, as the specification's glossary has it: the quotient rounded
  toward zero. \<open>q\<close> is that quotient of \<open>a\<close> by \<open>b\<close> when the remainder \<open>a - q * b\<close> is
  smaller in magnitude than \<open>b\<close> and is zero or has the sign of \<open>a\<close>.
\<close>

definition is_truncated_quotient :: "int \<Rightarrow> int \<Rightarrow> int \<Rightarrow> bool" where
  "is_truncated_quotient a b q =
     (let r = a - q * b in \<bar>r\<bar> < \<bar>b\<bar> \<and> (r = 0 \<or> sgn r = sgn a))"

text \<open>
  A text that is a valid base-10 signed integer, in the specification's sense: an
  optional sign followed by one or more decimal digits, and nothing else.
\<close>

definition valid_base10_text :: "string \<Rightarrow> bool" where
  "valid_base10_text s =
     (case s of
        [] \<Rightarrow> False
      | c # r \<Rightarrow>
          if c = CHR ''-'' \<or> c = CHR ''+'' then r \<noteq> [] \<and> list_all isdigit r
          else list_all isdigit s)"

text \<open>The value such a text denotes.\<close>

definition text_value :: "string \<Rightarrow> int" where
  "text_value s =
     (case s of
        [] \<Rightarrow> 0
      | c # r \<Rightarrow>
          if c = CHR ''-'' then - digits_value r
          else if c = CHR ''+'' then digits_value r
          else digits_value s)"

text \<open>
  The decimal notation itself, written out without the functions of the program: the
  ten digits and their values, and the number a string of digits denotes, read here from
  the least significant digit (the reversed text).
\<close>

definition decimal_digit :: "char \<Rightarrow> int option" where
  "decimal_digit c =
     map_of
       [(CHR ''0'', 0), (CHR ''1'', 1), (CHR ''2'', 2), (CHR ''3'', 3), (CHR ''4'', 4),
        (CHR ''5'', 5), (CHR ''6'', 6), (CHR ''7'', 7), (CHR ''8'', 8), (CHR ''9'', 9)] c"

primrec numeral_least_first :: "string \<Rightarrow> int option" where
  "numeral_least_first [] = Some 0"
| "numeral_least_first (c # cs) =
     (case decimal_digit c of
        None \<Rightarrow> None
      | Some d \<Rightarrow>
          (case numeral_least_first cs of None \<Rightarrow> None | Some v \<Rightarrow> Some (d + 10 * v)))"

text \<open>
  \<open>denotes t v\<close>: the argument text \<open>t\<close> is a base-10 signed integer, an optional sign and
  one or more digits and nothing else, and its value is \<open>v\<close>.
\<close>

definition denotes :: "string \<Rightarrow> int \<Rightarrow> bool" where
  "denotes t v =
     (case t of
        [] \<Rightarrow> False
      | c # r \<Rightarrow>
          if c = CHR ''-'' then r \<noteq> [] \<and> numeral_least_first (rev r) = Some (- v)
          else if c = CHR ''+'' then r \<noteq> [] \<and> numeral_least_first (rev r) = Some v
          else numeral_least_first (rev t) = Some v)"

text \<open>
  \<open>is_decimal_of v t\<close>: the text \<open>t\<close> is the integer \<open>v\<close> written in decimal, the \<open><x>\<close> of
  the specification's output line: the digits of the magnitude without a leading zero
  (a single \<open>0\<close> for zero), preceded by a minus sign exactly when \<open>v\<close> is negative.
\<close>

definition canonical_digits :: "string \<Rightarrow> int \<Rightarrow> bool" where
  "canonical_digits ds n =
     (ds \<noteq> [] \<and> numeral_least_first (rev ds) = Some n \<and> (ds = ''0'' \<or> hd ds \<noteq> CHR ''0''))"

definition is_decimal_of :: "int \<Rightarrow> string \<Rightarrow> bool" where
  "is_decimal_of v t =
     (if v < 0 then (case t of [] \<Rightarrow> False | c # r \<Rightarrow> c = CHR ''-'' \<and> canonical_digits r (- v))
      else canonical_digits t v)"

section \<open>Truncating division\<close>

text \<open>
  The quotient \<open>divide\<close> computes satisfies the specification's description of
  truncating division, and that description fixes the quotient uniquely.
\<close>

lemma smod_sign:
  fixes a b :: int
  assumes "b \<noteq> 0"
  shows "a smod b = 0 \<or> sgn (a smod b) = sgn a"
proof (cases "\<bar>a\<bar> mod \<bar>b\<bar> = 0")
  case True
  then show ?thesis by (simp add: signed_modulo_int_def)
next
  case False
  have "0 \<le> \<bar>a\<bar> mod \<bar>b\<bar>"
    using assms by simp
  with False have "0 < \<bar>a\<bar> mod \<bar>b\<bar>"
    by linarith
  then have "sgn (a smod b) = sgn a"
    by (simp add: signed_modulo_int_def sgn_mult)
  then show ?thesis ..
qed

lemma sdiv_is_truncated_quotient:
  assumes "b \<noteq> 0"
  shows "is_truncated_quotient a b (a sdiv b)"
proof -
  have r: "a - a sdiv b * b = a smod b"
    by (fact minus_sdiv_mult_eq_smod)
  have "\<bar>a smod b\<bar> < \<bar>b\<bar>"
    using smod_int_range [OF assms, of a] by auto
  with smod_sign [OF assms, of a] show ?thesis
    by (simp add: is_truncated_quotient_def Let_def r)
qed

lemma is_truncated_quotient_unique:
  assumes b: "b \<noteq> 0"
    and q: "is_truncated_quotient a b q"
    and q': "is_truncated_quotient a b q'"
  shows "q = q'"
proof -
  define r r' where "r = a - q * b" and "r' = a - q' * b"
  from q have r: "\<bar>r\<bar> < \<bar>b\<bar>" "r = 0 \<or> sgn r = sgn a"
    by (simp_all add: is_truncated_quotient_def Let_def r_def r'_def)
  from q' have r': "\<bar>r'\<bar> < \<bar>b\<bar>" "r' = 0 \<or> sgn r' = sgn a"
    by (simp_all add: is_truncated_quotient_def Let_def r_def r'_def)
  have "\<bar>r' - r\<bar> < \<bar>b\<bar>"
    using r r' by (auto simp: sgn_if split: if_splits)
  moreover have "r' - r = (q - q') * b"
    by (simp add: r_def r'_def algebra_simps)
  ultimately have "\<bar>q - q'\<bar> * \<bar>b\<bar> < 1 * \<bar>b\<bar>"
    by (simp add: abs_mult)
  then have "\<bar>q - q'\<bar> < 1"
    using b by (simp only: mult_less_cancel_right)
  then show ?thesis by simp
qed

text \<open>
  For operands in the range of \<open>int\<close>, the quotient leaves the range in one case only.
\<close>

lemma sdiv_representable_iff:
  assumes "INT_MIN \<le> a" "a \<le> INT_MAX"
  shows "(a sdiv b < INT_MIN \<or> INT_MAX < a sdiv b) \<longleftrightarrow> (a = INT_MIN \<and> b = - 1)"
proof
  assume "a = INT_MIN \<and> b = - 1"
  then show "a sdiv b < INT_MIN \<or> INT_MAX < a sdiv b"
    by (simp add: INT_MIN_def INT_MAX_def)
next
  assume out: "a sdiv b < INT_MIN \<or> INT_MAX < a sdiv b"
  have rng: "- \<bar>a\<bar> \<le> a sdiv b" "a sdiv b \<le> \<bar>a\<bar>"
    using sdiv_int_range [of a b] by simp_all
  have abs: "\<bar>a\<bar> \<le> 2 ^ 31"
    using assms by (simp add: INT_MIN_def INT_MAX_def abs_le_iff)
  from out rng abs have q: "a sdiv b = 2 ^ 31"
    by (simp add: INT_MIN_def INT_MAX_def)
  with rng abs assms have a: "a = - (2 ^ 31)"
    by (simp add: INT_MIN_def INT_MAX_def)
  with q have "a sdiv b = - a" by simp
  moreover from a have "a \<noteq> 0" by simp
  ultimately have "b = - 1"
    by simp
  with a show "a = INT_MIN \<and> b = - 1"
    by (simp add: INT_MIN_def)
qed

lemma sint_range: "INT_MIN \<le> sint (x :: cint)" "sint (x :: cint) \<le> INT_MAX"
  using sint_ge [of x] sint_lt [of x] by (simp_all add: INT_MIN_def INT_MAX_def)

lemma sint_word_of_int_in_range:
  "INT_MIN \<le> v \<Longrightarrow> v \<le> INT_MAX \<Longrightarrow> sint (word_of_int v :: cint) = v"
  by (simp add: INT_MIN_def INT_MAX_def sint_sbintrunc' signed_take_bit_int_eq_self)

lemma sint_eq_minus_one: "sint (y :: cint) = - 1 \<longleftrightarrow> y = - 1"
  using word_eq_iff_signed [of y "- 1", where ?'a = int] by simp

lemma sint_eq_zero: "sint (y :: cint) = 0 \<longleftrightarrow> y = 0"
  by (fact signed_eq_0_iff)

lemma sint_eq_INT_MIN: "sint (x :: cint) = INT_MIN \<longleftrightarrow> x = - 2147483648"
  using word_eq_iff_signed [of x "- 2147483648", where ?'a = int] by (simp add: INT_MIN_def)


section \<open>The results of \<open>divide\<close>\<close>

lemma divide_zero: "divide x 0 = Inl Division_By_Zero"
  by (simp add: divide_def)

lemma divide_overflow_iff:
  assumes "y \<noteq> 0"
  shows "divide x y = Inl Quotient_Not_Representable \<longleftrightarrow> x = - 2147483648 \<and> y = - 1"
  using assms sdiv_representable_iff [OF sint_range, of x "sint y"]
  by (simp add: divide_def Let_def sint_eq_INT_MIN sint_eq_minus_one)

lemma divide_defined:
  assumes "y \<noteq> 0" and "\<not> (x = - 2147483648 \<and> y = - 1)"
  shows "divide x y = Inr (word_of_int (sint x sdiv sint y))"
    and "sint (word_of_int (sint x sdiv sint y) :: cint) = sint x sdiv sint y"
proof -
  have "\<not> (sint x sdiv sint y < INT_MIN \<or> INT_MAX < sint x sdiv sint y)"
    using assms sdiv_representable_iff [OF sint_range, of x "sint y"]
    by (simp add: sint_eq_INT_MIN sint_eq_minus_one)
  then show "divide x y = Inr (word_of_int (sint x sdiv sint y))"
    and "sint (word_of_int (sint x sdiv sint y) :: cint) = sint x sdiv sint y"
    using assms by (simp_all add: divide_def Let_def sint_word_of_int_in_range)
qed

section \<open>The executions of \<open>main\<close>\<close>

lemma printf_usage:
  "printf ''Two integer arguments required\<newline>'' [] = ''Two integer arguments required\<newline>''"
  by simp

lemma printf_result:
  "printf ''%d / %d = %d\<newline>'' [x, y, z] =
     printf_d x @ '' / '' @ printf_d y @ '' = '' @ printf_d z @ ''\<newline>''"
  by simp

lemma main_wrong_count:
  "argc \<noteq> 3 \<Longrightarrow>
     main argc argv = Returned [Printf ''Two integer arguments required\<newline>''] (- 1)"
  by (simp add: main_def)

lemma run_wrong_count:
  "length args \<noteq> 2 \<Longrightarrow>
     run prog args = Returned [Printf ''Two integer arguments required\<newline>''] (- 1)"
  by (simp add: run_def main_wrong_count)

lemma run_two:
  "run prog [a, b] =
     (case stoi a of
        Inl e \<Rightarrow> Terminated [Stoi a] e
      | Inr x \<Rightarrow>
          (case stoi b of
             Inl e \<Rightarrow> Terminated [Stoi a, Stoi b] e
           | Inr y \<Rightarrow>
               (case divide x y of
                  Inl u \<Rightarrow> Undefined u
                | Inr z \<Rightarrow>
                    Returned
                      [Stoi a, Stoi b, Divide x y,
                       Printf (printf_d x @ '' / '' @ printf_d y @ '' = '' @ printf_d z
                                 @ ''\<newline>'')]
                      0)))"
  by (simp add: run_def main_def split: sum.splits)

lemma run_independent_of_name: "run prog args = run prog' args"
  by (simp add: run_def main_def split: sum.splits)

section \<open>Decimal texts: \<open>std::stoi\<close> and \<open>%d\<close>\<close>

lemma isdigit_iff: "isdigit c \<longleftrightarrow> 48 \<le> (of_char c :: int) \<and> (of_char c :: int) \<le> 57"
proof
  assume "isdigit c"
  then show "48 \<le> (of_char c :: int) \<and> (of_char c :: int) \<le> 57"
    by (auto simp: isdigit_def)
next
  assume r: "48 \<le> (of_char c :: int) \<and> (of_char c :: int) \<le> 57"
  then have "of_char c = (48 :: int) \<or> of_char c = (49 :: int) \<or> of_char c = (50 :: int)
      \<or> of_char c = (51 :: int) \<or> of_char c = (52 :: int) \<or> of_char c = (53 :: int)
      \<or> of_char c = (54 :: int) \<or> of_char c = (55 :: int) \<or> of_char c = (56 :: int)
      \<or> of_char c = (57 :: int)"
    by arith
  then have "of_char c = (of_char CHR ''0'' :: int) \<or> of_char c = (of_char CHR ''1'' :: int)
      \<or> of_char c = (of_char CHR ''2'' :: int) \<or> of_char c = (of_char CHR ''3'' :: int)
      \<or> of_char c = (of_char CHR ''4'' :: int) \<or> of_char c = (of_char CHR ''5'' :: int)
      \<or> of_char c = (of_char CHR ''6'' :: int) \<or> of_char c = (of_char CHR ''7'' :: int)
      \<or> of_char c = (of_char CHR ''8'' :: int) \<or> of_char c = (of_char CHR ''9'' :: int)"
    by simp
  then show "isdigit c"
    unfolding of_char_eq_iff by (simp add: isdigit_def)
qed

lemma isdigit_not_isspace: "isdigit c \<Longrightarrow> \<not> isspace c"
  by (auto simp: isdigit_def isspace_def)

lemma isdigit_not_sign: "isdigit c \<Longrightarrow> c \<noteq> CHR ''-'' \<and> c \<noteq> CHR ''+''"
  by (auto simp: isdigit_def)

lemma sign_not_isspace: "\<not> isspace CHR ''-''" "\<not> isspace CHR ''+''"
  by (simp_all add: isspace_def)

lemma takeWhile_all: "list_all P xs \<Longrightarrow> takeWhile P xs = xs"
  by (induction xs) simp_all

text \<open>
  On a valid text \<open>std::stoi\<close> converts the whole text: it returns the value the text
  denotes, or throws \<open>out_of_range\<close> when that value does not fit \<open>int\<close>.
\<close>

lemma stoi_valid_text:
  assumes "valid_base10_text s"
  shows "stoi s =
    (if text_value s < INT_MIN \<or> INT_MAX < text_value s then Inl Out_Of_Range
     else Inr (word_of_int (text_value s)))"
proof (cases s)
  case Nil
  with assms show ?thesis by (simp add: valid_base10_text_def)
next
  case (Cons c r)
  show ?thesis
  proof (cases "c = CHR ''-'' \<or> c = CHR ''+''")
    case True
    with assms Cons have r: "r \<noteq> []" "list_all isdigit r"
      by (simp_all add: valid_base10_text_def)
    from True have "\<not> isspace c"
      using sign_not_isspace by auto
    with True r Cons show ?thesis
      by (auto simp: stoi_def strip_sign_def text_value_def takeWhile_all Let_def)
  next
    case False
    with assms Cons have all: "list_all isdigit (c # r)"
      by (simp add: valid_base10_text_def)
    then have "isdigit c" by simp
    then have "\<not> isspace c"
      by (rule isdigit_not_isspace)
    moreover have "takeWhile isdigit (c # r) = c # r"
      using all by (rule takeWhile_all)
    ultimately show ?thesis
      using False Cons by (simp add: stoi_def strip_sign_def text_value_def Let_def)
  qed
qed


text \<open>
  What \<open>%d\<close> writes is a valid text that denotes the value written, so \<open>std::stoi\<close>
  reads it back.
\<close>

lemma digits_value_snoc: "digits_value (ds @ [c]) = 10 * digits_value ds + digit_val c"
  by (simp add: digits_value_def)

lemma digits_value_single: "digits_value [c] = digit_val c"
  by (simp add: digits_value_def)

lemma digit_val_digit_char: "0 \<le> d \<Longrightarrow> d < 10 \<Longrightarrow> digit_val (digit_char d) = d"
  by (simp add: digit_val_def digit_char_def of_char_of)

lemma isdigit_digit_char: "0 \<le> d \<Longrightarrow> d < 10 \<Longrightarrow> isdigit (digit_char d)"
  by (simp add: isdigit_iff digit_char_def of_char_of)

lemma dec_digits_digits: "0 \<le> n \<Longrightarrow> dec_digits n \<noteq> [] \<and> list_all isdigit (dec_digits n)"
proof (induction n rule: dec_digits.induct)
  case (1 n)
  show ?case
  proof (cases "n < 10")
    case True
    with "1.prems" show ?thesis
      by (simp add: dec_digits.simps [of n] isdigit_digit_char)
  next
    case False
    with "1.prems" have "0 \<le> n div 10" by simp
    with "1.IH" False have "list_all isdigit (dec_digits (n div 10))" by simp
    with False show ?thesis
      by (simp add: dec_digits.simps [of n] isdigit_digit_char)
  qed
qed

lemma dec_digits_value: "0 \<le> n \<Longrightarrow> digits_value (dec_digits n) = n"
proof (induction n rule: dec_digits.induct)
  case (1 n)
  show ?case
  proof (cases "n < 10")
    case True
    with "1.prems" show ?thesis
      by (simp add: dec_digits.simps [of n] digits_value_single digit_val_digit_char)
  next
    case False
    with "1.prems" have "0 \<le> n div 10" by simp
    with "1.IH" False have "digits_value (dec_digits (n div 10)) = n div 10" by simp
    with False show ?thesis
      by (simp add: dec_digits.simps [of n] digits_value_snoc digit_val_digit_char)
  qed
qed

lemma printf_d_valid: "valid_base10_text (printf_d w) \<and> text_value (printf_d w) = sint w"
proof (cases "sint w < 0")
  case True
  then have "0 \<le> - sint w" by simp
  from dec_digits_digits [OF this] dec_digits_value [OF this] True show ?thesis
    by (simp add: printf_d_def valid_base10_text_def text_value_def)
next
  case False
  then have n: "0 \<le> sint w" by simp
  from dec_digits_digits [OF n] obtain c r where cr: "dec_digits (sint w) = c # r"
    by (cases "dec_digits (sint w)") auto
  with dec_digits_digits [OF n] have "isdigit c" by simp
  then have "c \<noteq> CHR ''-'' \<and> c \<noteq> CHR ''+''"
    by (rule isdigit_not_sign)
  with dec_digits_digits [OF n] dec_digits_value [OF n] False cr show ?thesis
    by (simp add: printf_d_def valid_base10_text_def text_value_def)
qed

lemma stoi_printf_d: "stoi (printf_d w) = Inr w"
proof -
  have "valid_base10_text (printf_d w)" and v: "text_value (printf_d w) = sint w"
    using printf_d_valid [of w] by simp_all
  from stoi_valid_text [OF this(1)] sint_range [of w] show ?thesis
    by (simp add: v)
qed


text \<open>
  \<open>std::stoi\<close> stops at the first character that is not a digit: what follows a valid
  text does not change the result, and no exception is thrown for it.
\<close>

lemma takeWhile_all_then_stop:
  "list_all P xs \<Longrightarrow> \<not> P c \<Longrightarrow> takeWhile P (xs @ c # t) = xs"
  by (induction xs) simp_all

lemma stoi_ignores_trailing:
  assumes "valid_base10_text s" and "\<not> isdigit c"
  shows "stoi (s @ c # t) = stoi s"
proof (cases s)
  case Nil
  with assms show ?thesis by (simp add: valid_base10_text_def)
next
  case (Cons d r)
  show ?thesis
  proof (cases "d = CHR ''-'' \<or> d = CHR ''+''")
    case True
    with assms Cons have r: "r \<noteq> []" "list_all isdigit r"
      by (simp_all add: valid_base10_text_def)
    have tw: "takeWhile isdigit (r @ c # t) = r" "takeWhile isdigit r = r"
      using r(2) assms(2) by (simp_all add: takeWhile_all_then_stop takeWhile_all)
    from True show ?thesis
    proof
      assume m: "d = CHR ''-''"
      show ?thesis
        by (simp add: Cons m stoi_def strip_sign_def Let_def sign_not_isspace tw)
    next
      assume p: "d = CHR ''+''"
      show ?thesis
        by (simp add: Cons p stoi_def strip_sign_def Let_def sign_not_isspace tw)
    qed
  next
    case False
    with assms Cons have all: "list_all isdigit (d # r)"
      by (simp add: valid_base10_text_def)
    then have d: "isdigit d" and r: "list_all isdigit r"
      by simp_all
    from d have sp: "\<not> isspace d"
      by (rule isdigit_not_isspace)
    have tw: "takeWhile isdigit (r @ c # t) = r" "takeWhile isdigit r = r"
      using r assms(2) by (simp_all add: takeWhile_all_then_stop takeWhile_all)
    from False have sg: "d \<noteq> CHR ''-''" "d \<noteq> CHR ''+''"
      by simp_all
    show ?thesis
      by (simp add: Cons stoi_def strip_sign_def Let_def sp sg d tw)
  qed
qed

lemma stoi_invalid_argument_not_valid:
  assumes "stoi s = Inl Invalid_Argument"
  shows "\<not> valid_base10_text s"
proof
  assume "valid_base10_text s"
  from stoi_valid_text [OF this] assms show False
    by (simp split: if_splits)
qed

text \<open>
  The decimal notation of the specification against the functions of the program:
  a text that denotes an in-range value is converted to it by \<open>std::stoi\<close>, what \<open>%d\<close>
  writes is the decimal text of the value, and a value has one decimal text only.
\<close>

lemma digit_char_literals:
  "digit_char 0 = CHR ''0''" "digit_char 1 = CHR ''1''" "digit_char 2 = CHR ''2''"
  "digit_char 3 = CHR ''3''" "digit_char 4 = CHR ''4''" "digit_char 5 = CHR ''5''"
  "digit_char 6 = CHR ''6''" "digit_char 7 = CHR ''7''" "digit_char 8 = CHR ''8''"
  "digit_char 9 = CHR ''9''"
  by (simp_all add: digit_char_def char_of_def)

lemma decimal_digit_cases:
  assumes "decimal_digit c = Some d"
  shows "(c = CHR ''0'' \<and> d = 0) \<or> (c = CHR ''1'' \<and> d = 1) \<or> (c = CHR ''2'' \<and> d = 2)
    \<or> (c = CHR ''3'' \<and> d = 3) \<or> (c = CHR ''4'' \<and> d = 4) \<or> (c = CHR ''5'' \<and> d = 5)
    \<or> (c = CHR ''6'' \<and> d = 6) \<or> (c = CHR ''7'' \<and> d = 7) \<or> (c = CHR ''8'' \<and> d = 8)
    \<or> (c = CHR ''9'' \<and> d = 9)"
  using assms by (simp add: decimal_digit_def split: if_splits)

lemma decimal_digit_SomeD:
  assumes "decimal_digit c = Some d"
  shows "isdigit c" and "digit_val c = d" and "0 \<le> d" and "d < 10" and "digit_char d = c"
  using decimal_digit_cases [OF assms]
  by (auto simp: isdigit_def digit_val_def digit_char_literals)

lemma decimal_digit_digit_char:
  assumes "0 \<le> d" and "d < 10"
  shows "decimal_digit (digit_char d) = Some d"
proof -
  from assms have "d = 0 \<or> d = 1 \<or> d = 2 \<or> d = 3 \<or> d = 4 \<or> d = 5 \<or> d = 6 \<or> d = 7
      \<or> d = 8 \<or> d = 9"
    by arith
  then show ?thesis
    by (auto simp: decimal_digit_def digit_char_literals)
qed


lemma numeral_least_first_rev:
  "numeral_least_first (rev r) = Some v \<Longrightarrow> list_all isdigit r \<and> digits_value r = v"
proof (induction r arbitrary: v rule: rev_induct)
  case Nil
  then show ?case by (simp add: digits_value_def)
next
  case (snoc c xs)
  from snoc.prems obtain d m where d: "decimal_digit c = Some d"
    and m: "numeral_least_first (rev xs) = Some m" and v: "v = d + 10 * m"
    by (auto split: option.splits)
  from snoc.IH [OF m] decimal_digit_SomeD(1,2) [OF d] v show ?case
    by (simp add: digits_value_snoc)
qed

lemma denotes_valid:
  assumes "denotes t v"
  shows "valid_base10_text t \<and> text_value t = v"
proof (cases t)
  case Nil
  with assms show ?thesis by (simp add: denotes_def)
next
  case (Cons c r)
  consider (minus) "c = CHR ''-''" | (plus) "c = CHR ''+''"
    | (digit) "c \<noteq> CHR ''-''" "c \<noteq> CHR ''+''"
    by blast
  then show ?thesis
  proof cases
    case minus
    with assms Cons have "r \<noteq> []" and "numeral_least_first (rev r) = Some (- v)"
      by (simp_all add: denotes_def)
    from this(1) numeral_least_first_rev [OF this(2)] show ?thesis
      by (simp add: Cons minus valid_base10_text_def text_value_def)
  next
    case plus
    with assms Cons have "r \<noteq> []" and "numeral_least_first (rev r) = Some v"
      by (simp_all add: denotes_def)
    from this(1) numeral_least_first_rev [OF this(2)] show ?thesis
      by (simp add: Cons plus valid_base10_text_def text_value_def)
  next
    case digit
    with assms Cons have "numeral_least_first (rev t) = Some v"
      by (simp add: denotes_def)
    from numeral_least_first_rev [OF this] show ?thesis
      by (simp add: Cons digit valid_base10_text_def text_value_def)
  qed
qed

lemma numeral_least_first_nonneg: "numeral_least_first cs = Some m \<Longrightarrow> 0 \<le> m"
proof (induction cs arbitrary: m)
  case Nil
  then show ?case by simp
next
  case (Cons c cs)
  from Cons.prems obtain d k where d: "decimal_digit c = Some d"
    and k: "numeral_least_first cs = Some k" and m: "m = d + 10 * k"
    by (auto split: option.splits)
  from Cons.IH [OF k] decimal_digit_SomeD(3) [OF d] m show ?case by simp
qed

lemma decimal_digit_zero: "decimal_digit c = Some 0 \<Longrightarrow> c = CHR ''0''"
  using decimal_digit_cases [of c 0] by simp

lemma no_leading_zero_positive:
  "ds \<noteq> [] \<Longrightarrow> hd ds \<noteq> CHR ''0'' \<Longrightarrow> numeral_least_first (rev ds) = Some m \<Longrightarrow> 1 \<le> m"
proof (induction ds arbitrary: m rule: rev_induct)
  case Nil
  then show ?case by simp
next
  case (snoc c xs)
  from snoc.prems(3) obtain d k where d: "decimal_digit c = Some d"
    and k: "numeral_least_first (rev xs) = Some k" and m: "m = d + 10 * k"
    by (auto split: option.splits)
  have d0: "0 \<le> d" by (rule decimal_digit_SomeD(3) [OF d])
  show ?case
  proof (cases "xs = []")
    case True
    with snoc.prems(2) have "c \<noteq> CHR ''0''" by simp
    with d decimal_digit_zero [of c] have "d \<noteq> 0" by auto
    with d0 k True m show ?thesis by simp
  next
    case False
    with snoc.prems(2) have "hd xs \<noteq> CHR ''0''" by simp
    from snoc.IH [OF False this k] d0 m show ?thesis by simp
  qed
qed

lemma canonical_digits_dec_digits:
  "canonical_digits ds n \<Longrightarrow> ds = dec_digits n"
proof (induction ds arbitrary: n rule: rev_induct)
  case Nil
  then show ?case by (simp add: canonical_digits_def)
next
  case (snoc c xs)
  from snoc.prems have nl: "numeral_least_first (c # rev xs) = Some n"
    and lead: "xs @ [c] = ''0'' \<or> hd (xs @ [c]) \<noteq> CHR ''0''"
    by (simp_all add: canonical_digits_def)
  from nl obtain d k where d: "decimal_digit c = Some d"
    and k: "numeral_least_first (rev xs) = Some k" and n: "n = d + 10 * k"
    by (auto split: option.splits)
  have dr: "0 \<le> d" "d < 10" "digit_char d = c"
    by (rule decimal_digit_SomeD [OF d])+
  show ?case
  proof (cases "xs = []")
    case True
    with k have "k = 0" by simp
    with n have nd: "n = d" by simp
    from dr(2) have "dec_digits d = [digit_char d]"
      by (simp add: dec_digits.simps [of d])
    with dr(3) nd True show ?thesis by simp
  next
    case False
    with lead have h: "hd xs \<noteq> CHR ''0''" by auto
    from no_leading_zero_positive [OF False h k] have k1: "1 \<le> k" .
    from False h k have "canonical_digits xs k"
      by (simp add: canonical_digits_def)
    then have xs: "xs = dec_digits k" by (rule snoc.IH)
    from k1 dr n have "\<not> n < 10" "n div 10 = k" "n mod 10 = d"
      by simp_all
    with xs dr(3) show ?thesis
      by (simp add: dec_digits.simps [of n])
  qed
qed

lemma dec_digits_canonical: "0 \<le> n \<Longrightarrow> canonical_digits (dec_digits n) n"
proof (induction n rule: dec_digits.induct)
  case (1 n)
  show ?case
  proof (cases "n < 10")
    case True
    have "digit_char n = CHR ''0'' \<Longrightarrow> n = 0"
    proof -
      assume "digit_char n = CHR ''0''"
      with decimal_digit_digit_char [OF "1.prems" True] have "Some n = decimal_digit CHR ''0''"
        by simp
      then show "n = 0" by (simp add: decimal_digit_def)
    qed
    with True "1.prems" show ?thesis
      by (auto simp: canonical_digits_def dec_digits.simps [of n] decimal_digit_digit_char)
  next
    case False
    with "1.prems" have k: "0 \<le> n div 10" "1 \<le> n div 10" by simp_all
    from "1.IH" [OF False k(1)] have c: "canonical_digits (dec_digits (n div 10)) (n div 10)" .
    then have ne: "dec_digits (n div 10) \<noteq> []"
      and nl: "numeral_least_first (rev (dec_digits (n div 10))) = Some (n div 10)"
      and lead: "dec_digits (n div 10) = ''0'' \<or> hd (dec_digits (n div 10)) \<noteq> CHR ''0''"
      by (simp_all add: canonical_digits_def)
    have "dec_digits (n div 10) \<noteq> ''0''"
    proof
      assume "dec_digits (n div 10) = ''0''"
      with nl have "n div 10 = 0" by (simp add: decimal_digit_def)
      with k(2) show False by simp
    qed
    with lead have h: "hd (dec_digits (n div 10)) \<noteq> CHR ''0''" by simp
    have d: "decimal_digit (digit_char (n mod 10)) = Some (n mod 10)"
      by (rule decimal_digit_digit_char) simp_all
    from False ne nl h d show ?thesis
      by (simp add: canonical_digits_def dec_digits.simps [of n])
  qed
qed

lemma printf_d_is_decimal: "is_decimal_of (sint w) (printf_d w)"
proof (cases "sint w < 0")
  case True
  then have "0 \<le> - sint w" by simp
  from dec_digits_canonical [OF this] True show ?thesis
    by (simp add: is_decimal_of_def printf_d_def)
next
  case False
  then have "0 \<le> sint w" by simp
  from dec_digits_canonical [OF this] False show ?thesis
    by (simp add: is_decimal_of_def printf_d_def)
qed

lemma is_decimal_of_unique:
  assumes "is_decimal_of v t" and "is_decimal_of v t'"
  shows "t = t'"
proof (cases "v < 0")
  case True
  with assms obtain r r' where "t = CHR ''-'' # r" "canonical_digits r (- v)"
    "t' = CHR ''-'' # r'" "canonical_digits r' (- v)"
    by (auto simp: is_decimal_of_def split: list.splits)
  with canonical_digits_dec_digits [of r "- v"] canonical_digits_dec_digits [of r' "- v"]
  show ?thesis by simp
next
  case False
  with assms have "canonical_digits t v" "canonical_digits t' v"
    by (simp_all add: is_decimal_of_def)
  with canonical_digits_dec_digits [of t v] canonical_digits_dec_digits [of t' v]
  show ?thesis by simp
qed


lemma denotes_stoi:
  assumes "denotes t v" and "INT_MIN \<le> v" and "v \<le> INT_MAX"
  shows "stoi t = Inr (word_of_int v)" and "sint (word_of_int v :: cint) = v"
proof -
  from denotes_valid [OF assms(1)] have "valid_base10_text t" and "text_value t = v"
    by simp_all
  with stoi_valid_text [of t] assms(2,3) show "stoi t = Inr (word_of_int v)"
    by simp
  from assms(2,3) show "sint (word_of_int v :: cint) = v"
    by (rule sint_word_of_int_in_range)
qed

section \<open>Further facts about executions\<close>

subsection \<open>Evaluations at concrete inputs\<close>

lemma stoi_examples:
  "stoi ''10'' = Inr 10" "stoi ''-10'' = Inr (- 10)" "stoi ''3'' = Inr 3" "stoi ''0'' = Inr 0"
  "stoi ''-2147483648'' = Inr (- 2147483648)" "stoi ''-1'' = Inr (- 1)"
  "stoi ''12abc'' = Inr 12" "stoi ''1'' = Inr 1"
  "stoi ''abc'' = Inl Invalid_Argument" "stoi ''2147483648'' = Inl Out_Of_Range"
  by code_simp+

lemma printf_d_examples:
  "printf_d 10 = ''10''" "printf_d 3 = ''3''" "printf_d (- 10) = ''-10''" "printf_d (- 3) = ''-3''"
  "printf_d 12 = ''12''" "printf_d 4 = ''4''"
  by code_simp+

lemma divide_examples:
  "divide 10 3 = Inr 3" "divide (- 10) 3 = Inr (- 3)" "divide 7 2 = Inr 3" "divide (- 7) 2 = Inr (- 3)"
  "divide 7 (- 2) = Inr (- 3)" "divide 12 3 = Inr 4"
  by code_simp+

subsection \<open>When an execution is undefined\<close>

lemma run_undefined_iff:
  "observable (run prog args) = None \<longleftrightarrow>
     (\<exists>a b x y. args = [a, b] \<and> stoi a = Inr x \<and> stoi b = Inr y
        \<and> (y = 0 \<or> (x = - 2147483648 \<and> y = - 1)))"
proof (cases "length args = 2")
  case False
  then have "args \<noteq> [a, b]" for a b by auto
  with False show ?thesis by (simp add: run_wrong_count)
next
  case True
  then obtain a b where args: "args = [a, b]"
    by (metis (no_types, opaque_lifting) One_nat_def Suc_1 length_0_conv length_Suc_conv)
  show ?thesis
  proof (cases "stoi a")
    case (Inl e)
    then show ?thesis by (simp add: args run_two)
  next
    case x: (Inr x)
    show ?thesis
    proof (cases "stoi b")
      case (Inl e)
      with x show ?thesis by (simp add: args run_two)
    next
      case y: (Inr y)
      show ?thesis
      proof (cases "y = 0")
        case True
        with x y show ?thesis by (simp add: args run_two divide_zero)
      next
        case False
        show ?thesis
        proof (cases "x = - 2147483648 \<and> y = - 1")
          case True
          with divide_overflow_iff [OF False, of x] x y show ?thesis
            by (simp add: args run_two)
        next
          case ok: False
          from divide_defined(1) [OF False ok] x y False ok show ?thesis
            by (simp add: args run_two)
        qed
      qed
    qed
  qed
qed

subsection \<open>The status of a return of \<open>- 1\<close>\<close>

lemma process_status_minus_one: "uint (process_status (- 1)) = 255"
  by (simp add: process_status_def unsigned_ucast_eq unsigned_minus_1_eq_mask mask_numeral)

section \<open>The claims of the specification\<close>

subsection \<open>C1: \<open>divide\<close> returns the truncating quotient\<close>

text \<open>
  C1 as stated asks only for a nonzero divisor. The operands parsed from the arguments
  \<open>-2147483648\<close> and \<open>-1\<close> have a nonzero divisor, and \<open>divide\<close> returns no quotient
  for them: the division is undefined.
\<close>

theorem divide_nonzero_divisor_counterexample:
  "stoi ''-2147483648'' = Inr (- 2147483648) \<and> stoi ''-1'' = Inr (- 1) \<and> (- 1 :: cint) \<noteq> 0
   \<and> divide (- 2147483648) (- 1) = Inl Quotient_Not_Representable"
  by (simp add: stoi_examples divide_overflow_iff)

text \<open>
  C1 (amended): for every pair of \<open>int\<close> values \<open>x\<close> and \<open>y\<close> with \<open>y\<close> nonzero, other
  than the pair \<open>x = INT_MIN\<close>, \<open>y = -1\<close>, \<open>divide x y\<close> returns a value \<open>z\<close>, and \<open>z\<close> is
  the quotient of \<open>x\<close> by \<open>y\<close> rounded toward zero; in particular \<open>7 / 2 = 3\<close>,
  \<open>-7 / 2 = -3\<close> and \<open>7 / -2 = -3\<close>.
\<close>

theorem divide_truncating:
  assumes "y \<noteq> 0" and "\<not> (x = - 2147483648 \<and> y = - 1)"
  shows "(\<exists>z. divide x y = Inr z \<and> is_truncated_quotient (sint x) (sint y) (sint z))
    \<and> divide 7 2 = Inr 3 \<and> divide (- 7) 2 = Inr (- 3) \<and> divide 7 (- 2) = Inr (- 3)"
proof -
  from assms(1) have "sint y \<noteq> 0"
    by (simp add: sint_eq_zero)
  then have "is_truncated_quotient (sint x) (sint y) (sint x sdiv sint y)"
    by (rule sdiv_is_truncated_quotient)
  with divide_defined [OF assms] show ?thesis
    by (simp add: divide_examples)
qed

theorem divide_truncating_witness:
  "(2 :: cint) \<noteq> 0 \<and> \<not> ((- 7 :: cint) = - 2147483648 \<and> (2 :: cint) = - 1)
   \<and> (\<exists>z. divide (- 7) 2 = Inr z \<and> is_truncated_quotient (sint (- 7 :: cint)) (sint (2 :: cint)) (sint z))"
proof -
  have h1: "(2 :: cint) \<noteq> 0" by simp
  have h2: "\<not> ((- 7 :: cint) = - 2147483648 \<and> (2 :: cint) = - 1)" by simp
  show ?thesis using h1 h2 divide_truncating [OF h1 h2] by blast
qed

subsection \<open>C2: division by zero is not guarded\<close>

text \<open>
  C2: when both arguments parse and the second is zero, nothing between the parse and the
  division detects it: \<open>divide\<close> is called with the zero divisor and takes its
  division-by-zero branch, and the execution of \<open>main\<close> is the undefined one, which is
  neither a reported error nor a return after a printed result; it determines no
  observation.
\<close>

theorem division_by_zero_unguarded:
  assumes "stoi a = Inr x" and "stoi b = Inr 0"
  shows "divide x 0 = Inl Division_By_Zero
    \<and> run prog [a, b] = Undefined Division_By_Zero
    \<and> observable (run prog [a, b]) = None"
  using assms by (simp add: run_two divide_zero)

theorem division_by_zero_unguarded_witness:
  "stoi ''10'' = Inr 10 \<and> stoi ''0'' = Inr 0
   \<and> divide 10 0 = Inl Division_By_Zero
   \<and> run ''divide'' [''10'', ''0''] = Undefined Division_By_Zero
   \<and> observable (run ''divide'' [''10'', ''0'']) = None"
proof -
  have h1: "stoi ''10'' = Inr 10" and h2: "stoi ''0'' = Inr 0"
    by (simp_all add: stoi_examples)
  show ?thesis using h1 h2 division_by_zero_unguarded [OF h1 h2, of "''divide''"] by simp
qed

subsection \<open>C3: a wrong number of arguments\<close>

text \<open>
  C3: for every argument list whose length (beyond the program name) is not two, the
  execution consists of the one \<open>printf\<close> of the line \<open>Two integer arguments required\<close>
  and nothing else (no call of \<open>std::stoi\<close>, no call of \<open>divide\<close>), that line is the
  whole of standard output, and \<open>main\<close> returns a value that is not zero.
\<close>

theorem wrong_argument_count:
  assumes "length args \<noteq> 2"
  shows "run prog args = Returned [Printf ''Two integer arguments required\<newline>''] (- 1)
    \<and> observable (run prog args) = Some (''Two integer arguments required\<newline>'', Exit (- 1))
    \<and> (- 1 :: cint) \<noteq> 0"
  using assms by (simp add: run_wrong_count stdout_of_def)

theorem wrong_argument_count_witness:
  "length [''10''] \<noteq> 2
   \<and> run ''divide'' [''10''] = Returned [Printf ''Two integer arguments required\<newline>''] (- 1)
   \<and> observable (run ''divide'' [''10'']) = Some (''Two integer arguments required\<newline>'', Exit (- 1))"
proof -
  have h: "length [''10''] \<noteq> 2" by simp
  show ?thesis using h wrong_argument_count [OF h, of "''divide''"] by blast
qed

subsection \<open>C4: the result line\<close>

text \<open>
  C4: for every invocation with exactly two arguments that are base-10 signed integer
  texts with values \<open>x\<close> and \<open>y\<close> in the range of \<open>int\<close>, with \<open>y\<close> nonzero and the
  quotient representable, the program writes to standard output exactly the line
  \<open><x> / <y> = <z>\<close> followed by a newline and exits with code zero: \<open>z\<close> is the
  truncating quotient of \<open>x\<close> by \<open>y\<close>, which \<open>divide\<close> returns, and \<open><x>\<close>, \<open><y>\<close>, \<open><z>\<close>
  are the decimal texts of the three values. The quotient and the three texts are the
  only ones there are, so the line is fixed by \<open>x\<close> and \<open>y\<close>.
\<close>

theorem two_valid_arguments_output:
  assumes "denotes a vx" and "INT_MIN \<le> vx" and "vx \<le> INT_MAX"
    and "denotes b vy" and "INT_MIN \<le> vy" and "vy \<le> INT_MAX"
    and "vy \<noteq> 0" and "\<not> (vx = INT_MIN \<and> vy = - 1)"
  shows "\<exists>q tx ty tq.
      is_truncated_quotient vx vy q
    \<and> is_decimal_of vx tx \<and> is_decimal_of vy ty \<and> is_decimal_of q tq
    \<and> (\<forall>q' tx' ty' tq'.
          is_truncated_quotient vx vy q'
        \<and> is_decimal_of vx tx' \<and> is_decimal_of vy ty' \<and> is_decimal_of q' tq'
        \<longrightarrow> q' = q \<and> tx' = tx \<and> ty' = ty \<and> tq' = tq)
    \<and> divide (word_of_int vx) (word_of_int vy) = Inr (word_of_int q)
    \<and> run prog [a, b] =
        Returned
          [Stoi a, Stoi b, Divide (word_of_int vx) (word_of_int vy),
           Printf (tx @ '' / '' @ ty @ '' = '' @ tq @ ''\<newline>'')] 0
    \<and> observable (run prog [a, b]) =
        Some (tx @ '' / '' @ ty @ '' = '' @ tq @ ''\<newline>'', Exit 0)"
proof -
  define x y :: cint where "x = word_of_int vx" and "y = word_of_int vy"
  have x: "stoi a = Inr x" "sint x = vx"
    unfolding x_def by (rule denotes_stoi [OF assms(1-3)])+
  have y: "stoi b = Inr y" "sint y = vy"
    unfolding y_def by (rule denotes_stoi [OF assms(4-6)])+
  from assms(7) y(2) have y0: "y \<noteq> 0"
    using sint_eq_zero [of y] by simp
  from assms(8) x(2) y(2) have ok: "\<not> (x = - 2147483648 \<and> y = - 1)"
    using sint_eq_INT_MIN [of x] sint_eq_minus_one [of y] by simp
  define q where "q = vx sdiv vy"
  define z :: cint where "z = word_of_int q"
  from divide_defined [OF y0 ok] x(2) y(2) have d: "divide x y = Inr z" and z: "sint z = q"
    by (simp_all add: z_def q_def)
  from assms(7) have tq: "is_truncated_quotient vx vy q"
    unfolding q_def by (rule sdiv_is_truncated_quotient)
  have dx: "is_decimal_of vx (printf_d x)"
    using printf_d_is_decimal [of x] by (simp add: x(2))
  have dy: "is_decimal_of vy (printf_d y)"
    using printf_d_is_decimal [of y] by (simp add: y(2))
  have dz: "is_decimal_of q (printf_d z)"
    using printf_d_is_decimal [of z] by (simp add: z)
  have u: "\<forall>q' tx' ty' tq'.
        is_truncated_quotient vx vy q'
      \<and> is_decimal_of vx tx' \<and> is_decimal_of vy ty' \<and> is_decimal_of q' tq'
      \<longrightarrow> q' = q \<and> tx' = printf_d x \<and> ty' = printf_d y \<and> tq' = printf_d z"
  proof (intro allI impI)
    fix q' tx' ty' tq'
    assume h: "is_truncated_quotient vx vy q'
      \<and> is_decimal_of vx tx' \<and> is_decimal_of vy ty' \<and> is_decimal_of q' tq'"
    then have q': "q' = q"
      using is_truncated_quotient_unique [OF assms(7) _ tq] by blast
    from h have "tx' = printf_d x"
      using is_decimal_of_unique [OF _ dx] by blast
    moreover from h have "ty' = printf_d y"
      using is_decimal_of_unique [OF _ dy] by blast
    moreover from h q' have "tq' = printf_d z"
      using is_decimal_of_unique [OF _ dz] by blast
    ultimately show "q' = q \<and> tx' = printf_d x \<and> ty' = printf_d y \<and> tq' = printf_d z"
      using q' by blast
  qed
  have r: "run prog [a, b] =
      Returned
        [Stoi a, Stoi b, Divide x y,
         Printf (printf_d x @ '' / '' @ printf_d y @ '' = '' @ printf_d z @ ''\<newline>'')] 0"
    by (simp add: run_two x(1) y(1) d)
  then have ob: "observable (run prog [a, b]) =
      Some (printf_d x @ '' / '' @ printf_d y @ '' = '' @ printf_d z @ ''\<newline>'', Exit 0)"
    by (simp add: stdout_of_def)
  from tq d dx dy dz u r ob show ?thesis
    unfolding x_def y_def z_def by blast
qed

theorem two_valid_arguments_output_witness:
  "denotes ''-7'' (- 7) \<and> INT_MIN \<le> - 7 \<and> - 7 \<le> INT_MAX
   \<and> denotes ''2'' 2 \<and> INT_MIN \<le> 2 \<and> 2 \<le> INT_MAX
   \<and> (2 :: int) \<noteq> 0 \<and> \<not> (- 7 = INT_MIN \<and> (2 :: int) = - 1)
   \<and> is_truncated_quotient (- 7) 2 (- 3)
   \<and> is_decimal_of (- 7) ''-7'' \<and> is_decimal_of 2 ''2'' \<and> is_decimal_of (- 3) ''-3''
   \<and> observable (run ''divide'' [''-7'', ''2'']) = Some (''-7 / 2 = -3\<newline>'', Exit 0)"
proof -
  have h1: "denotes ''-7'' (- 7)" and h4: "denotes ''2'' 2"
    by (simp_all add: denotes_def decimal_digit_def)
  have h2: "INT_MIN \<le> - 7" and h3: "- 7 \<le> INT_MAX"
    and h5: "INT_MIN \<le> 2" and h6: "2 \<le> INT_MAX"
    by (simp_all add: INT_MIN_def INT_MAX_def)
  have h7: "(2 :: int) \<noteq> 0" by simp
  have h8: "\<not> (- 7 = INT_MIN \<and> (2 :: int) = - 1)" by simp
  have s1: "is_truncated_quotient (- 7) 2 (- 3)"
    by (simp add: is_truncated_quotient_def)
  have s2: "is_decimal_of (- 7) ''-7''" and s3: "is_decimal_of 2 ''2''"
    and s4: "is_decimal_of (- 3) ''-3''"
    by (simp_all add: is_decimal_of_def canonical_digits_def decimal_digit_def)
  from two_valid_arguments_output [OF h1 h2 h3 h4 h5 h6 h7 h8, of "''divide''"]
  obtain q tx ty tq where
    u: "\<forall>q' tx' ty' tq'.
          is_truncated_quotient (- 7) 2 q'
        \<and> is_decimal_of (- 7) tx' \<and> is_decimal_of 2 ty' \<and> is_decimal_of q' tq'
        \<longrightarrow> q' = q \<and> tx' = tx \<and> ty' = ty \<and> tq' = tq"
    and ob: "observable (run ''divide'' [''-7'', ''2'']) =
        Some (tx @ '' / '' @ ty @ '' = '' @ tq @ ''\<newline>'', Exit 0)"
    by blast
  from u s1 s2 s3 s4 have "tx = ''-7'' \<and> ty = ''2'' \<and> tq = ''-3''"
    by blast
  with ob have "observable (run ''divide'' [''-7'', ''2'']) = Some (''-7 / 2 = -3\<newline>'', Exit 0)"
    by simp
  with h1 h2 h3 h4 h5 h6 h7 h8 s1 s2 s3 s4 show ?thesis
    by blast
qed

subsection \<open>C5: the two scenarios\<close>

text \<open>
  C5: on the arguments \<open>10\<close> and \<open>3\<close> the program writes the line \<open>10 / 3 = 3\<close> and exits
  with 0; on \<open>-10\<close> and \<open>3\<close> it writes \<open>-10 / 3 = -3\<close> and exits with 0.
\<close>

theorem scenarios:
  "run prog [''10'', ''3''] =
     Returned [Stoi ''10'', Stoi ''3'', Divide 10 3, Printf ''10 / 3 = 3\<newline>''] 0
   \<and> observable (run prog [''10'', ''3'']) = Some (''10 / 3 = 3\<newline>'', Exit 0)
   \<and> run prog [''-10'', ''3''] =
     Returned [Stoi ''-10'', Stoi ''3'', Divide (- 10) 3, Printf ''-10 / 3 = -3\<newline>''] 0
   \<and> observable (run prog [''-10'', ''3'']) = Some (''-10 / 3 = -3\<newline>'', Exit 0)"
  by (simp add: run_two stoi_examples divide_examples printf_d_examples stdout_of_def)

subsection \<open>C6: arguments that do not parse\<close>

text \<open>
  C6 as stated covers every text that is not a valid base-10 integer. \<open>std::stoi\<close>
  converts the longest numeric prefix and ignores the rest, so the invalid text \<open>12abc\<close>
  parses as 12 and a result line is printed.
\<close>

theorem invalid_text_counterexample:
  "\<not> valid_base10_text ''12abc''
   \<and> run ''divide'' [''12abc'', ''3''] =
       Returned [Stoi ''12abc'', Stoi ''3'', Divide 12 3, Printf ''12 / 3 = 4\<newline>''] 0"
  by (simp add: run_two stoi_examples divide_examples printf_d_examples valid_base10_text_def
      isdigit_def)

text \<open>
  C6 (amended): when exactly two arguments are present and \<open>std::stoi\<close> throws on the
  first, or converts the first and throws on the second, the exception leaves \<open>main\<close>
  uncaught: the execution ends in \<open>std::terminate\<close> with that exception, and nothing
  has been written to standard output, neither a result line nor the usage message.
  (\<open>std::stoi\<close> throws when no digit follows the optional white space and sign, and
  when the signed value of the digits is outside the range of \<open>int\<close>; \<open>stoi_valid_text\<close> gives
  its result on the valid texts and \<open>stoi_ignores_trailing\<close> on a valid text followed
  by other characters.)
\<close>

theorem parse_failure_terminates:
  assumes "stoi a = Inl e \<or> (\<exists>x. stoi a = Inr x \<and> stoi b = Inl e)"
  shows "\<exists>evs. run prog [a, b] = Terminated evs e \<and> stdout_of evs = []
    \<and> observable (run prog [a, b]) = Some ([], Abort)"
  using assms by (auto simp: run_two stdout_of_def)

theorem parse_failure_terminates_witness:
  "(stoi ''abc'' = Inl Invalid_Argument
      \<or> (\<exists>x. stoi ''abc'' = Inr x \<and> stoi ''3'' = Inl Invalid_Argument))
   \<and> (\<exists>evs. run ''divide'' [''abc'', ''3''] = Terminated evs Invalid_Argument
        \<and> stdout_of evs = [])"
proof -
  have h: "stoi ''abc'' = Inl Invalid_Argument
      \<or> (\<exists>x. stoi ''abc'' = Inr x \<and> stoi ''3'' = Inl Invalid_Argument)"
    by (simp add: stoi_examples)
  show ?thesis using h parse_failure_terminates [OF h, of "''divide''"] by auto
qed

subsection \<open>C7: the exit code after the computation\<close>

text \<open>
  C7 as stated includes a zero divisor among the invocations that end with exit code
  zero. On the arguments \<open>10\<close> and \<open>0\<close> both parse, the division is undefined, and the
  execution has no exit code.
\<close>

theorem exit_zero_with_zero_divisor_counterexample:
  "stoi ''10'' = Inr 10 \<and> stoi ''0'' = Inr 0
   \<and> run ''divide'' [''10'', ''0''] = Undefined Division_By_Zero
   \<and> exit_code (run ''divide'' [''10'', ''0'']) \<noteq> Some 0"
  by (simp add: run_two stoi_examples divide_zero)

text \<open>
  C7 (amended): for every invocation with two arguments that parse to \<open>x\<close> and \<open>y\<close>, the
  program exits with code zero exactly when the division is defined (\<open>y\<close> nonzero and
  not \<open>INT_MIN / -1\<close>); when \<open>y = 0\<close> the execution is undefined and has no exit code.
\<close>

theorem exit_code_after_parse:
  assumes "stoi a = Inr x" and "stoi b = Inr y"
  shows "exit_code (run prog [a, b]) =
    (if y = 0 \<or> (x = - 2147483648 \<and> y = - 1) then None else Some 0)"
proof (cases "y = 0")
  case True
  with assms show ?thesis by (simp add: run_two divide_zero)
next
  case False
  show ?thesis
  proof (cases "x = - 2147483648 \<and> y = - 1")
    case True
    with divide_overflow_iff [OF False, of x] assms show ?thesis
      by (simp add: run_two)
  next
    case ok: False
    from divide_defined(1) [OF False ok] assms False ok show ?thesis
      by (simp add: run_two)
  qed
qed

theorem exit_code_after_parse_witness:
  "stoi ''10'' = Inr 10 \<and> stoi ''3'' = Inr 3 \<and> exit_code (run ''divide'' [''10'', ''3'']) = Some 0"
proof -
  have h1: "stoi ''10'' = Inr 10" and h2: "stoi ''3'' = Inr 3"
    by (simp_all add: stoi_examples)
  show ?thesis using h1 h2 exit_code_after_parse [OF h1 h2, of "''divide''"] by simp
qed

subsection \<open>C8: the quotient that is not representable\<close>

text \<open>
  C8: with a nonzero divisor, \<open>divide\<close> fails to return a quotient for exactly one
  pair of operands, \<open>x = INT_MIN\<close> and \<open>y = -1\<close>: the quotient of the values is above
  \<open>INT_MAX\<close>, the division is undefined, and the arguments \<open>-2147483648\<close> and \<open>-1\<close>
  reach it through \<open>main\<close>.
\<close>

theorem quotient_not_representable:
  assumes "y \<noteq> 0"
  shows "((\<exists>u. divide x y = Inl u) \<longleftrightarrow> x = - 2147483648 \<and> y = - 1)
    \<and> divide (- 2147483648) (- 1) = Inl Quotient_Not_Representable
    \<and> sint (- 2147483648 :: cint) = INT_MIN
    \<and> INT_MAX < INT_MIN sdiv (- 1)
    \<and> run prog [''-2147483648'', ''-1''] = Undefined Quotient_Not_Representable"
proof -
  have "(\<exists>u. divide x y = Inl u) \<longleftrightarrow> x = - 2147483648 \<and> y = - 1"
  proof (cases "x = - 2147483648 \<and> y = - 1")
    case True
    with divide_overflow_iff [OF assms, of x] show ?thesis by simp
  next
    case False
    with divide_defined(1) [OF assms False] show ?thesis by simp
  qed
  moreover have d: "divide (- 2147483648) (- 1) = Inl Quotient_Not_Representable"
    by (simp add: divide_overflow_iff)
  moreover have "sint (- 2147483648 :: cint) = INT_MIN"
    by (simp add: INT_MIN_def)
  moreover have "INT_MAX < INT_MIN sdiv (- 1)"
    by (simp add: INT_MIN_def INT_MAX_def)
  moreover have "run prog [''-2147483648'', ''-1''] = Undefined Quotient_Not_Representable"
    by (simp add: run_two stoi_examples d)
  ultimately show ?thesis
    by blast
qed

theorem quotient_not_representable_witness:
  "(- 1 :: cint) \<noteq> 0 \<and> (\<exists>u. divide (- 2147483648) (- 1) = Inl u)
   \<and> (7 :: cint) \<noteq> 0 \<and> \<not> (\<exists>u. divide (- 2147483648) 7 = Inl u)"
proof -
  have h1: "(- 1 :: cint) \<noteq> 0" and h2: "(7 :: cint) \<noteq> 0" by simp_all
  show ?thesis
    using h1 h2 quotient_not_representable [OF h1, of "- 2147483648" "''divide''"]
      quotient_not_representable [OF h2, of "- 2147483648" "''divide''"]
    by simp
qed

subsection \<open>C9: the value returned on a wrong argument count\<close>

text \<open>
  C9: on a wrong argument count \<open>main\<close> returns the value \<open>-1\<close>, whose low eight bits,
  the status seen by the parent process, are 255.
\<close>

theorem wrong_count_returns_minus_one:
  assumes "length args \<noteq> 2"
  shows "\<exists>r. exit_code (run prog args) = Some r \<and> sint r = - 1 \<and> uint (process_status r) = 255"
  using assms by (simp add: run_wrong_count process_status_minus_one)

theorem wrong_count_returns_minus_one_witness:
  "length ([] :: string list) \<noteq> 2
   \<and> (\<exists>r. exit_code (run ''divide'' []) = Some r \<and> sint r = - 1 \<and> uint (process_status r) = 255)"
proof -
  have h: "length ([] :: string list) \<noteq> 2" by simp
  show ?thesis using h wrong_count_returns_minus_one [OF h, of "''divide''"] by blast
qed

end
